theory Spec2Isabelle
  imports Main "HOL-Library.List_Lexorder"
begin

section \<open>Text\<close>

text \<open>
  Both scripts work on Python \<open>str\<close> values, which are sequences of Unicode code points
  (the Chinese numerals are single characters there). A character is therefore modelled
  by its code point and a string by the list of its code points; \<open>length\<close> then counts
  what Python's \<open>len\<close> counts.
\<close>

type_synonym uchar = nat
type_synonym ustring = "uchar list"

text \<open>ASCII literals are written as HOL strings and read as code points.\<close>

definition ustr :: "string \<Rightarrow> ustring" where
  "ustr s = map of_char s"

abbreviation (input) NL :: uchar where "NL \<equiv> 10"
abbreviation (input) HASH :: uchar where "HASH \<equiv> 35"
abbreviation (input) DASH :: uchar where "DASH \<equiv> 45"

text \<open>The characters of \<open>rename_by_chapter.py\<close>, by code point.\<close>

abbreviation (input) zh_ling :: uchar where "zh_ling \<equiv> 0x96F6"
abbreviation (input) zh_yi :: uchar where "zh_yi \<equiv> 0x4E00"
abbreviation (input) zh_er :: uchar where "zh_er \<equiv> 0x4E8C"
abbreviation (input) zh_san :: uchar where "zh_san \<equiv> 0x4E09"
abbreviation (input) zh_si :: uchar where "zh_si \<equiv> 0x56DB"
abbreviation (input) zh_wu :: uchar where "zh_wu \<equiv> 0x4E94"
abbreviation (input) zh_liu :: uchar where "zh_liu \<equiv> 0x516D"
abbreviation (input) zh_qi :: uchar where "zh_qi \<equiv> 0x4E03"
abbreviation (input) zh_ba :: uchar where "zh_ba \<equiv> 0x516B"
abbreviation (input) zh_jiu :: uchar where "zh_jiu \<equiv> 0x4E5D"
abbreviation (input) zh_shi :: uchar where "zh_shi \<equiv> 0x5341"
abbreviation (input) zh_bai :: uchar where "zh_bai \<equiv> 0x767E"
abbreviation (input) zh_juan :: uchar where "zh_juan \<equiv> 0x5377"
abbreviation (input) zh_zhi :: uchar where "zh_zhi \<equiv> 0x4E4B"
abbreviation (input) zh_mu :: uchar where "zh_mu \<equiv> 0x76EE"
abbreviation (input) zh_lu :: uchar where "zh_lu \<equiv> 0x9332"

section \<open>The Chinese numeral converter (\<open>chinese_to_number\<close>)\<close>

text \<open>
  The table \<open>chinese_nums\<close> of the source, in its order, and \<open>dict.get\<close> with a default.
  Python integers are unbounded, hence \<open>int\<close>.
\<close>

definition chinese_nums :: "uchar \<rightharpoonup> int" where
  "chinese_nums = map_of
     [(zh_ling, 0), (zh_yi, 1), (zh_er, 2), (zh_san, 3), (zh_si, 4),
      (zh_wu, 5), (zh_liu, 6), (zh_qi, 7), (zh_ba, 8), (zh_jiu, 9),
      (zh_shi, 10), (zh_bai, 100)]"

definition dict_get :: "('k \<rightharpoonup> 'v) \<Rightarrow> 'k \<Rightarrow> 'v \<Rightarrow> 'v" where
  "dict_get d k dflt = (case d k of None \<Rightarrow> dflt | Some v \<Rightarrow> v)"

text \<open>
  The \<open>for\<close> loop over the characters, with the two variables \<open>result\<close> and \<open>temp\<close> it
  updates; it returns both as they stand after the last character.
\<close>

fun scan_chars :: "int \<Rightarrow> int \<Rightarrow> ustring \<Rightarrow> int \<times> int" where
  "scan_chars result temp [] = (result, temp)"
| "scan_chars result temp (c # cs) =
     (if c = zh_bai then
        (let temp1 = (if temp = 0 then 1 else temp)
         in scan_chars (result + temp1 * 100) 0 cs)
      else if c = zh_shi then
        (let temp1 = (if temp = 0 then 1 else temp)
         in scan_chars (result + temp1 * 10) 0 cs)
      else scan_chars result (dict_get chinese_nums c 0) cs)"

definition chinese_to_number :: "ustring \<Rightarrow> int" where
  "chinese_to_number chinese_str =
     (case chinese_str of
        [c] \<Rightarrow> dict_get chinese_nums c 0
      | _ \<Rightarrow> (case scan_chars 0 0 chinese_str of (result, temp) \<Rightarrow> result + temp))"

subsection \<open>The converter as the specification words it\<close>

text \<open>
  The specification describes a left-to-right fold over the state (pending digit, running
  total). The ones digits are zero to nine; a character outside the recognised set counts
  as the value zero when it becomes the pending digit.
\<close>

definition ones_digit :: "uchar \<Rightarrow> int option" where
  "ones_digit c =
     (if c = zh_ling then Some 0 else if c = zh_yi then Some 1
      else if c = zh_er then Some 2 else if c = zh_san then Some 3
      else if c = zh_si then Some 4 else if c = zh_wu then Some 5
      else if c = zh_liu then Some 6 else if c = zh_qi then Some 7
      else if c = zh_ba then Some 8 else if c = zh_jiu then Some 9
      else None)"

definition pending_or_1 :: "int \<Rightarrow> int" where
  "pending_or_1 p = (if p = 0 then 1 else p)"

fun spec_step :: "int \<times> int \<Rightarrow> uchar \<Rightarrow> int \<times> int" where
  "spec_step (pending, tot) c =
     (if c = zh_bai then (0, tot + pending_or_1 pending * 100)
      else if c = zh_shi then (0, tot + pending_or_1 pending * 10)
      else (case ones_digit c of Some d \<Rightarrow> (d, tot) | None \<Rightarrow> (0, tot)))"

definition spec_converter :: "ustring \<Rightarrow> int" where
  "spec_converter s = (case foldl spec_step (0, 0) s of (pending, tot) \<Rightarrow> tot + pending)"

section \<open>Regular expressions as the scripts use them\<close>

text \<open>
  The three patterns of the scripts are sequences of literals, repetitions of a character
  class (greedy or lazy, some of them capturing), an optional literal and the anchors.
  \<open>re_match\<close> is Python's \<open>re.match\<close> on such a sequence: it matches at the start of the
  string, tries the alternatives of every repetition in the order of a backtracking
  matcher (longest first when greedy, shortest first when lazy) and returns the captured
  groups of the first complete match.
\<close>

datatype quant = Greedy | Lazy

datatype re_item =
    Caret
  | Dollar
  | Chars ustring
  | OptChars ustring
  | Rep quant nat bool "uchar \<Rightarrow> bool"

text \<open>
  \<open>Rep q n cap P\<close> is \<open>n\<close> or more characters of the class \<open>P\<close>; \<open>cap\<close> says that the
  repetition is a capturing group. \<open>OptChars\<close> is a non-capturing optional literal.
  Without the MULTILINE flag \<open>^\<close> matches at position 0 only and \<open>$\<close> at the end of the
  string or before a newline that ends the string.
\<close>

fun runs :: "(uchar \<Rightarrow> bool) \<Rightarrow> ustring \<Rightarrow> (ustring \<times> ustring) list" where
  "runs P [] = [([], [])]"
| "runs P (c # cs) =
     ([], c # cs) # (if P c then map (\<lambda>(a, b). (c # a, b)) (runs P cs) else [])"

fun first_some :: "('a \<Rightarrow> 'b option) \<Rightarrow> 'a list \<Rightarrow> 'b option" where
  "first_some f [] = None"
| "first_some f (x # xs) = (case f x of Some r \<Rightarrow> Some r | None \<Rightarrow> first_some f xs)"

fun rx_match :: "re_item list \<Rightarrow> nat \<Rightarrow> ustring \<Rightarrow> ustring list \<Rightarrow> ustring list option" where
  "rx_match [] pos s gs = Some gs"
| "rx_match (Caret # items) pos s gs =
     (if pos = 0 then rx_match items pos s gs else None)"
| "rx_match (Dollar # items) pos s gs =
     (if s = [] \<or> s = [NL] then rx_match items pos s gs else None)"
| "rx_match (Chars lit # items) pos s gs =
     (if take (length lit) s = lit
      then rx_match items (pos + length lit) (drop (length lit) s) gs else None)"
| "rx_match (OptChars lit # items) pos s gs =
     (case (if take (length lit) s = lit
            then rx_match items (pos + length lit) (drop (length lit) s) gs else None) of
        Some r \<Rightarrow> Some r
      | None \<Rightarrow> rx_match items pos s gs)"
| "rx_match (Rep q n cap P # items) pos s gs =
     first_some
       (\<lambda>(a, b). rx_match items (pos + length a) b (if cap then gs @ [a] else gs))
       (filter (\<lambda>(a, b). n \<le> length a)
          (case q of Greedy \<Rightarrow> rev (runs P s) | Lazy \<Rightarrow> runs P s))"

text \<open>The number of groups a pattern captures.\<close>

fun captures :: "re_item list \<Rightarrow> nat" where
  "captures [] = 0"
| "captures (Rep q n cap P # items) = (if cap then 1 else 0) + captures items"
| "captures (i # items) = captures items"

definition re_match :: "re_item list \<Rightarrow> ustring \<Rightarrow> ustring list option" where
  "re_match pattern s = rx_match pattern 0 s []"

text \<open>The class \<open>\s\<close> of a \<open>str\<close> pattern (Unicode white space) and the dot under DOTALL.\<close>

definition is_space :: "uchar \<Rightarrow> bool" where
  "is_space c =
     ((9 \<le> c \<and> c \<le> 13) \<or> (28 \<le> c \<and> c \<le> 32) \<or> c = 0x85 \<or> c = 0xA0 \<or> c = 0x1680
      \<or> (0x2000 \<le> c \<and> c \<le> 0x200A) \<or> c = 0x2028 \<or> c = 0x2029 \<or> c = 0x202F
      \<or> c = 0x205F \<or> c = 0x3000)"

definition any_char :: "uchar \<Rightarrow> bool" where
  "any_char c = True"

text \<open>\<open>str.split('\n')\<close>: the pieces between newlines; an empty text has one empty piece.\<close>

fun split_nl :: "ustring \<Rightarrow> ustring list" where
  "split_nl [] = [[]]"
| "split_nl (c # cs) =
     (if c = NL then [] # split_nl cs
      else (case split_nl cs of l # ls \<Rightarrow> (c # l) # ls | [] \<Rightarrow> [[c]]))"

section \<open>The chapter title parser (\<open>parse_chapter_title\<close>)\<close>

text \<open>The character class of both heading patterns: one to nine, ten and hundred.\<close>

definition is_numeral :: "uchar \<Rightarrow> bool" where
  "is_numeral c =
     (c = zh_yi \<or> c = zh_er \<or> c = zh_san \<or> c = zh_si \<or> c = zh_wu \<or> c = zh_liu
      \<or> c = zh_qi \<or> c = zh_ba \<or> c = zh_jiu \<or> c = zh_shi \<or> c = zh_bai)"

definition pattern_with_section :: "re_item list" where
  "pattern_with_section =
     [Caret, Chars [HASH], Rep Greedy 1 False is_space, Chars [zh_juan],
      Rep Greedy 1 True is_numeral, Chars [zh_zhi], Rep Greedy 1 True is_numeral]"

definition pattern_without_section :: "re_item list" where
  "pattern_without_section =
     [Caret, Chars [HASH], Rep Greedy 1 False is_space, Chars [zh_juan],
      Rep Greedy 1 True is_numeral, OptChars [zh_mu, zh_lu], Dollar]"

text \<open>
  The body of the loop for one line: the pattern with a section first, then the pattern
  without. \<open>None\<close> means that the loop goes on to the next line. Both patterns capture
  their groups whenever they match, so the last branch of each \<open>case\<close> is never taken.
\<close>

definition parse_line :: "ustring \<Rightarrow> (int \<times> int option) option" where
  "parse_line line =
     (case re_match pattern_with_section line of
        Some (volume_str # section_str # _) \<Rightarrow>
          Some (chinese_to_number volume_str, Some (chinese_to_number section_str))
      | _ \<Rightarrow>
        (case re_match pattern_without_section line of
           Some (volume_str # _) \<Rightarrow> Some (chinese_to_number volume_str, None)
         | _ \<Rightarrow> None))"

fun parse_lines :: "ustring list \<Rightarrow> (int \<times> int option) option" where
  "parse_lines [] = None"
| "parse_lines (line # rest) =
     (case parse_line line of Some r \<Rightarrow> Some r | None \<Rightarrow> parse_lines rest)"

definition parse_chapter_title :: "ustring \<Rightarrow> (int \<times> int option) option" where
  "parse_chapter_title content = parse_lines (split_nl content)"

text \<open>A heading line is a line that one of the two patterns matches.\<close>

definition heading_line :: "ustring \<Rightarrow> bool" where
  "heading_line line =
     (re_match pattern_with_section line \<noteq> None \<or> re_match pattern_without_section line \<noteq> None)"

section \<open>Target names (\<open>format_chapter_number\<close>)\<close>

text \<open>
  The format specifications \<open>03d\<close> and \<open>02d\<close>: the decimal digits, filled with zeros on the
  left up to the width, the sign of a negative number counted in the width.
\<close>

fun dec :: "nat \<Rightarrow> ustring" where
  "dec n = (if n < 10 then [48 + n] else dec (n div 10) @ [48 + n mod 10])"

declare dec.simps [simp del]


definition zfill :: "nat \<Rightarrow> ustring \<Rightarrow> ustring" where
  "zfill w s = replicate (w - length s) 48 @ s"

definition format_d :: "nat \<Rightarrow> int \<Rightarrow> ustring" where
  "format_d w v =
     (if v < 0 then DASH # zfill (w - 1) (dec (nat (- v))) else zfill w (dec (nat v)))"

definition format_chapter_number :: "int \<Rightarrow> int option \<Rightarrow> ustring" where
  "format_chapter_number volume section =
     (case section of
        None \<Rightarrow> format_d 3 volume
      | Some s \<Rightarrow> format_d 3 volume @ ustr ''_'' @ format_d 2 s)"

section \<open>Files and standard output\<close>

text \<open>
  An exception is a value with the text that \<open>str\<close> gives for it. A directory entry is
  readable text, something \<open>open\<close> or \<open>read\<close> raises on (no permission, a directory, bytes
  that are not UTF-8), or a symbolic link to nothing, which reading raises on as well. A
  directory is an association list from names to entries.
\<close>

datatype exn = OSError ustring | UnicodeDecodeError ustring | UnicodeEncodeError ustring

fun exn_str :: "exn \<Rightarrow> ustring" where
  "exn_str (OSError t) = t"
| "exn_str (UnicodeDecodeError t) = t"
| "exn_str (UnicodeEncodeError t) = t"

datatype node = Text ustring | Unreadable exn | Dangling exn

type_synonym directory = "(ustring \<times> node) list"

definition read_node :: "node \<Rightarrow> exn + ustring" where
  "read_node n = (case n of Text t \<Rightarrow> Inr t | Unreadable e \<Rightarrow> Inl e | Dangling e \<Rightarrow> Inl e)"

text \<open>
  Reading a name that is not in the directory raises; with distinct names in the
  directory the renamer never does so, and the text of that error is cut after the reason.
\<close>

definition read_text :: "directory \<Rightarrow> ustring \<Rightarrow> exn + ustring" where
  "read_text d name =
     (case map_of d name of
        None \<Rightarrow> Inl (OSError (ustr ''[Errno 2] No such file or directory''))
      | Some n \<Rightarrow> read_node n)"

text \<open>\<open>Path.exists\<close> follows symbolic links: a link to nothing does not exist.\<close>

definition path_exists :: "directory \<Rightarrow> ustring \<Rightarrow> bool" where
  "path_exists d name =
     (case map_of d name of
        None \<Rightarrow> False
      | Some (Dangling e) \<Rightarrow> False
      | Some n \<Rightarrow> True)"

text \<open>
  \<open>Path.rename\<close>: the entry moves to the new name, replacing what is there. The operating
  system may refuse the rename of a name (\<open>denied\<close> gives the exception then).
\<close>

definition path_rename ::
  "(ustring \<Rightarrow> exn option) \<Rightarrow> directory \<Rightarrow> ustring \<Rightarrow> ustring \<Rightarrow> exn + directory" where
  "path_rename denied d old new =
     (case map_of d old of
        None \<Rightarrow> Inl (OSError (ustr ''[Errno 2] No such file or directory''))
      | Some n \<Rightarrow>
          (case denied old of
             Some e \<Rightarrow> Inl e
           | None \<Rightarrow> Inr ((new, n) # filter (\<lambda>(k, v). k \<noteq> old \<and> k \<noteq> new) d)))"

text \<open>The selection \<open>glob("KR3k0059_*.md")\<close> on a file name.\<close>

definition glob_match :: "ustring \<Rightarrow> bool" where
  "glob_match name =
     (12 \<le> length name \<and> take 9 name = ustr ''KR3k0059_''
      \<and> drop (length name - 3) name = ustr ''.md'')"

text \<open>An operating system that refuses no rename.\<close>

definition never_denied :: "ustring \<Rightarrow> exn option" where
  "never_denied name = None"

text \<open>
  Standard output is a function from the line \<open>print\<close> is given to the exception the write
  raises, if any. \<open>utf8_stdout\<close> is a strict UTF-8 stream: it writes every string but one
  with a surrogate code point (which a file name with a byte that is not UTF-8 holds), and
  then raises with the text Python gives the error, naming the first run of surrogates.
\<close>

definition surrogate :: "uchar \<Rightarrow> bool" where
  "surrogate c = (0xD800 \<le> c \<and> c \<le> 0xDFFF)"

definition hex_digit :: "nat \<Rightarrow> uchar" where
  "hex_digit n = (if n < 10 then 48 + n else 87 + n)"

definition hex4 :: "uchar \<Rightarrow> ustring" where
  "hex4 c = [hex_digit (c div 4096 mod 16), hex_digit (c div 256 mod 16),
             hex_digit (c div 16 mod 16), hex_digit (c mod 16)]"

definition utf8_stdout :: "ustring \<Rightarrow> exn option" where
  "utf8_stdout line =
     (let p = length (takeWhile (\<lambda>c. \<not> surrogate c) line);
          rest = drop p line;
          r = length (takeWhile surrogate rest)
      in case rest of
           [] \<Rightarrow> None
         | c # _ \<Rightarrow>
            Some (UnicodeEncodeError
              (if r = 1 then
                 [39] @ ustr ''utf-8'' @ [39] @ ustr '' codec can'' @ [39]
                   @ ustr ''t encode character '' @ [39, 92] @ ustr ''u'' @ hex4 c @ [39]
                   @ ustr '' in position '' @ dec p @ ustr '': surrogates not allowed''
               else
                 [39] @ ustr ''utf-8'' @ [39] @ ustr '' codec can'' @ [39]
                   @ ustr ''t encode characters in position '' @ dec p @ ustr ''-''
                   @ dec (p + r - 1) @ ustr '': surrogates not allowed'')))"

section \<open>The renamer (\<open>process_md_files\<close>)\<close>

text \<open>The lines the renamer prints, and their text (\<open>render\<close>) as the f-strings build it.\<close>

datatype event =
    DirMissing ustring
  | Found nat
  | Blank
  | NoChapter ustring
  | AlreadyCorrect ustring
  | TargetExists ustring ustring
  | DryRun ustring ustring int "int option"
  | Renamed ustring ustring int "int option"
  | Error ustring exn
  | Rule
  | Done
  | CountRenamed nat
  | CountSkipped nat
  | CountFailed nat
  | DryNote
  | DryHint

definition py_int_str :: "int \<Rightarrow> ustring" where
  "py_int_str v = (if v < 0 then DASH # dec (nat (- v)) else dec (nat v))"

definition chapter_display :: "int \<Rightarrow> int option \<Rightarrow> ustring" where
  "chapter_display volume section =
     (case section of
        None \<Rightarrow> zh_juan # py_int_str volume
      | Some s \<Rightarrow> zh_juan # py_int_str volume @ [zh_zhi] @ py_int_str s)"

fun render :: "event \<Rightarrow> ustring" where
  "render (DirMissing md_dir) =
     [0x9519, 0x8BEF] @ ustr '': '' @ [0x76EE, 0x5F55, 32] @ md_dir @ [32, 0x4E0D, 0x5B58, 0x5728]"
| "render (Found n) = [0x627E, 0x5230, 32] @ dec n @ [32, 0x4E2A, 0x6587, 0x4EF6]"
| "render Blank = []"
| "render (NoChapter name) =
     [0x274C, 32, 0x8DF3, 0x8FC7, 32] @ name
       @ ustr '': '' @ [0x65E0, 0x6CD5, 0x627E, 0x5230, 0x7AE0, 0x8282, 0x6807, 0x9898]"
| "render (AlreadyCorrect name) =
     [0x23ED, 0xFE0F, 32, 32, 0x8DF3, 0x8FC7, 32] @ name
       @ ustr '': '' @ [0x5DF2, 0x7ECF, 0x662F, 0x6B63, 0x786E, 0x7684, 0x540D, 0x79F0]"
| "render (TargetExists name new_name) =
     [0x26A0, 0xFE0F, 32, 32, 0x8B66, 0x544A, 32] @ name @ ustr '' -> '' @ new_name
       @ ustr ''.md: '' @ [0x76EE, 0x6807, 0x6587, 0x4EF6, 0x5DF2, 0x5B58, 0x5728]"
| "render (DryRun name new_name volume section) =
     ustr ''['' @ [0x8BD5, 0x8FD0, 0x884C] @ ustr ''] '' @ name @ ustr '' -> '' @ new_name
       @ ustr ''.md ('' @ chapter_display volume section @ ustr '')''"
| "render (Renamed name new_name volume section) =
     [0x2713, 32] @ name @ ustr '' -> '' @ new_name
       @ ustr ''.md ('' @ chapter_display volume section @ ustr '')''"
| "render (Error name e) =
     [0x274C, 32, 0x5904, 0x7406, 32] @ name @ [32, 0x65F6, 0x51FA, 0x9519] @ ustr '': ''
       @ exn_str e"
| "render Rule = replicate 60 61"
| "render Done = [0x5904, 0x7406, 0x5B8C, 0x6210, 33]"
| "render (CountRenamed n) =
     [32, 32, 0x91CD, 0x547D, 0x540D] @ ustr '': '' @ dec n @ [32, 0x4E2A, 0x6587, 0x4EF6]"
| "render (CountSkipped n) =
     [32, 32, 0x8DF3, 0x8FC7] @ ustr '': '' @ dec n @ [32, 0x4E2A, 0x6587, 0x4EF6]"
| "render (CountFailed n) =
     [32, 32, 0x5931, 0x8D25] @ ustr '': '' @ dec n @ [32, 0x4E2A, 0x6587, 0x4EF6]"
| "render DryNote =
     [0x6CE8, 0x610F] @ ustr '': '' @ [0x8FD9, 0x662F, 0x8BD5, 0x8FD0, 0x884C, 0xFF0C, 0x6CA1,
       0x6709, 0x5B9E, 0x9645, 0x91CD, 0x547D, 0x540D, 0x6587, 0x4EF6, 0x3002]"
| "render DryHint =
     [0x8981, 0x5B9E, 0x9645, 0x6267, 0x884C, 0x91CD, 0x547D, 0x540D, 0xFF0C, 0x8BF7, 0x8FD0,
       0x884C] @ ustr '': python scripts/rename_by_chapter.py''"

record run_state =
  dir :: directory
  renamed_count :: nat
  failed_count :: nat
  skipped_count :: nat
  log :: "event list"

text \<open>
  \<open>print\<close>: the line is written and recorded in the log, or the write raises and the state
  stays as it is. An exception travels with the state at the moment it is raised.
\<close>

definition py_print ::
  "(ustring \<Rightarrow> exn option) \<Rightarrow> event \<Rightarrow> run_state \<Rightarrow> (exn \<times> run_state) + run_state" where
  "py_print out ev st =
     (case out (render ev) of
        Some e \<Rightarrow> Inl (e, st)
      | None \<Rightarrow> Inr (st\<lparr>log := log st @ [ev]\<rparr>))"

fun print_all ::
  "(ustring \<Rightarrow> exn option) \<Rightarrow> event list \<Rightarrow> run_state \<Rightarrow> (exn \<times> run_state) + run_state" where
  "print_all out [] st = Inr st"
| "print_all out (ev # evs) st =
     (case py_print out ev st of Inl x \<Rightarrow> Inl x | Inr st1 \<Rightarrow> print_all out evs st1)"

text \<open>
  The body of the \<open>try\<close> block for one file, statement by statement: read, parse, compare,
  then on each path the \<open>print\<close> before the counter. \<open>Inl\<close> is an exception that leaves the
  body, from the read, the rename or a \<open>print\<close>.
\<close>

definition process_file ::
  "bool \<Rightarrow> (ustring \<Rightarrow> exn option) \<Rightarrow> (ustring \<Rightarrow> exn option) \<Rightarrow> run_state \<Rightarrow> ustring
     \<Rightarrow> (exn \<times> run_state) + run_state" where
  "process_file dry_run denied out st name =
     (case read_text (dir st) name of
        Inl e \<Rightarrow> Inl (e, st)
      | Inr content \<Rightarrow>
         (case parse_chapter_title content of
            None \<Rightarrow>
              (case py_print out (NoChapter name) st of
                 Inl x \<Rightarrow> Inl x
               | Inr st1 \<Rightarrow> Inr (st1\<lparr>skipped_count := skipped_count st1 + 1\<rparr>))
          | Some (volume, section) \<Rightarrow>
             (let new_name = format_chapter_number volume section;
                  target = new_name @ ustr ''.md''
              in if name = target then
                   (case py_print out (AlreadyCorrect name) st of
                      Inl x \<Rightarrow> Inl x
                    | Inr st1 \<Rightarrow> Inr (st1\<lparr>skipped_count := skipped_count st1 + 1\<rparr>))
                 else if path_exists (dir st) target \<and> target \<noteq> name then
                   (case py_print out (TargetExists name new_name) st of
                      Inl x \<Rightarrow> Inl x
                    | Inr st1 \<Rightarrow> Inr (st1\<lparr>failed_count := failed_count st1 + 1\<rparr>))
                 else if dry_run then
                   (case py_print out (DryRun name new_name volume section) st of
                      Inl x \<Rightarrow> Inl x
                    | Inr st1 \<Rightarrow> Inr (st1\<lparr>renamed_count := renamed_count st1 + 1\<rparr>))
                 else
                   (case path_rename denied (dir st) name target of
                      Inl e \<Rightarrow> Inl (e, st)
                    | Inr d \<Rightarrow>
                       (case py_print out (Renamed name new_name volume section)
                               (st\<lparr>dir := d\<rparr>) of
                          Inl x \<Rightarrow> Inl x
                        | Inr st1 \<Rightarrow> Inr (st1\<lparr>renamed_count := renamed_count st1 + 1\<rparr>))))))"

text \<open>
  The \<open>for\<close> loop with its \<open>except Exception\<close> handler. The handler prints first and counts
  after; its \<open>print\<close> stands in no \<open>try\<close>, so what it raises leaves the loop.
\<close>

fun process_loop ::
  "bool \<Rightarrow> (ustring \<Rightarrow> exn option) \<Rightarrow> (ustring \<Rightarrow> exn option) \<Rightarrow> run_state \<Rightarrow> ustring list
     \<Rightarrow> (exn \<times> run_state) + run_state" where
  "process_loop dry_run denied out st [] = Inr st"
| "process_loop dry_run denied out st (name # names) =
     (case process_file dry_run denied out st name of
        Inr st1 \<Rightarrow> process_loop dry_run denied out st1 names
      | Inl (e, st1) \<Rightarrow>
         (case py_print out (Error name e) st1 of
            Inl x \<Rightarrow> Inl x
          | Inr st2 \<Rightarrow>
              process_loop dry_run denied out
                (st2\<lparr>failed_count := failed_count st2 + 1\<rparr>) names))"

text \<open>
  The whole run on the directory named \<open>md_dir\<close>. A directory that does not exist
  (\<open>None\<close>, no entries) is reported and ends the run; otherwise the selected names are
  counted, processed in sorted order and summed up.
\<close>

definition md_files :: "directory \<Rightarrow> ustring list" where
  "md_files d = sort (filter glob_match (map fst d))"

definition summary :: "bool \<Rightarrow> run_state \<Rightarrow> event list" where
  "summary dry_run st =
     [Blank, Rule, Done, CountRenamed (renamed_count st), CountSkipped (skipped_count st),
      CountFailed (failed_count st)]
     @ (if dry_run then [Blank, DryNote, DryHint] else [])"

definition process_md_files ::
  "bool \<Rightarrow> (ustring \<Rightarrow> exn option) \<Rightarrow> (ustring \<Rightarrow> exn option) \<Rightarrow> ustring
     \<Rightarrow> directory option \<Rightarrow> (exn \<times> run_state) + run_state" where
  "process_md_files dry_run denied out md_dir md_path =
     (case md_path of
        None \<Rightarrow>
          py_print out (DirMissing md_dir)
            \<lparr>dir = [], renamed_count = 0, failed_count = 0, skipped_count = 0, log = []\<rparr>
      | Some d \<Rightarrow>
         (case print_all out [Found (length (md_files d)), Blank]
                 \<lparr>dir = d, renamed_count = 0, failed_count = 0, skipped_count = 0, log = []\<rparr> of
            Inl x \<Rightarrow> Inl x
          | Inr st1 \<Rightarrow>
             (case process_loop dry_run denied out st1 (md_files d) of
                Inl x \<Rightarrow> Inl x
              | Inr st2 \<Rightarrow> print_all out (summary dry_run st2) st2)))"

text \<open>A file is at its canonical name when its name is the one its own heading gives.\<close>

definition canonical_file :: "ustring \<times> node \<Rightarrow> bool" where
  "canonical_file f =
     (case snd f of
        Text content \<Rightarrow>
          (case parse_chapter_title content of
             Some (volume, section) \<Rightarrow>
               fst f = format_chapter_number volume section @ ustr ''.md''
           | None \<Rightarrow> False)
      | Unreadable e \<Rightarrow> False
      | Dangling e \<Rightarrow> False)"

section \<open>The splitter and the merger (\<open>merge_files.py\<close>)\<close>

definition frontmatter_pattern :: "re_item list" where
  "frontmatter_pattern =
     [Caret, Chars (ustr ''---'' @ [NL]), Rep Lazy 0 True any_char,
      Chars (NL # ustr ''---'' @ [NL]), Rep Greedy 0 True any_char, Dollar]"

text \<open>
  What the rest of the pattern does once the lazy group has stopped after \<open>a\<close> with \<open>r\<close>
  left to read: the closing marker must come next, and the greedy group takes what follows.
  \<open>pre\<close> is what the group holds before \<open>a\<close>.
\<close>

definition close_at :: "ustring \<Rightarrow> ustring \<times> ustring \<Rightarrow> ustring list option" where
  "close_at pre x = (case x of (a, r) \<Rightarrow>
     if take 5 r = [NL, 45, 45, 45, NL] then Some [pre @ a, drop 5 r] else None)"

text \<open>The part of \<open>extract_frontmatter_and_content\<close> after the file is read.\<close>

definition split_frontmatter :: "ustring \<Rightarrow> ustring option \<times> ustring" where
  "split_frontmatter content =
     (case re_match frontmatter_pattern content of
        Some (frontmatter # body # _) \<Rightarrow> (Some frontmatter, body)
      | _ \<Rightarrow> (None, content))"


text \<open>
  What the f-string of the merger needs: the truth value of an optional string (\<open>None\<close>
  and the empty string are false), its formatting (\<open>None\<close> prints as the word), and the
  delimited form itself.
\<close>

definition truthy :: "ustring option \<Rightarrow> bool" where
  "truthy fm = (case fm of None \<Rightarrow> False | Some s \<Rightarrow> s \<noteq> [])"

definition py_str :: "ustring option \<Rightarrow> ustring" where
  "py_str fm = (case fm of None \<Rightarrow> ustr ''None'' | Some s \<Rightarrow> s)"

definition delimited :: "ustring \<Rightarrow> ustring \<Rightarrow> ustring" where
  "delimited frontmatter body = ustr ''---'' @ [NL] @ frontmatter @ [NL] @ ustr ''---'' @ [NL] @ body"

definition merged_frontmatter :: "ustring option \<Rightarrow> ustring option \<Rightarrow> ustring option" where
  "merged_frontmatter catalog_fm content_fm = (if truthy catalog_fm then catalog_fm else content_fm)"

text \<open>
  The merged text of one pair, from what the splitter returned for the catalog and for
  the content.
\<close>

definition merged_content ::
  "ustring option \<times> ustring \<Rightarrow> ustring option \<times> ustring \<Rightarrow> ustring" where
  "merged_content catalog content =
     (case catalog of (catalog_fm, catalog_body) \<Rightarrow>
      (case content of (content_fm, content_body) \<Rightarrow>
         (let frontmatter = merged_frontmatter catalog_fm content_fm
          in delimited (py_str frontmatter) (catalog_body @ [NL] @ content_body))))"








section \<open>Properties of the converter\<close>

lemma dict_get_chinese_nums_digit:
  "c \<noteq> zh_bai \<Longrightarrow> c \<noteq> zh_shi \<Longrightarrow>
   dict_get chinese_nums c 0 = (case ones_digit c of Some d \<Rightarrow> d | None \<Rightarrow> 0)"
  by (simp add: dict_get_def chinese_nums_def ones_digit_def)

lemma dict_get_chinese_nums_nonneg: "0 \<le> dict_get chinese_nums c 0"
  by (simp add: dict_get_def chinese_nums_def)

lemma scan_chars_nonneg:
  "0 \<le> result \<Longrightarrow> 0 \<le> temp \<Longrightarrow>
   0 \<le> fst (scan_chars result temp cs) \<and> 0 \<le> snd (scan_chars result temp cs)"
proof (induction cs arbitrary: result temp)
  case Nil
  then show ?case by simp
next
  case (Cons c cs)
  have d: "0 \<le> dict_get chinese_nums c 0" by (rule dict_get_chinese_nums_nonneg)
  from Cons.prems have h: "0 \<le> result + (if temp = 0 then 1 else temp) * 100"
    and t: "0 \<le> result + (if temp = 0 then 1 else temp) * 10" by auto
  show ?case
    using Cons.IH [OF h, of 0] Cons.IH [OF t, of 0] Cons.IH [OF Cons.prems(1) d]
    by (simp add: Let_def)
qed

lemma scan_chars_foldl:
  "scan_chars result temp cs = (case foldl spec_step (temp, result) cs of (p, t) \<Rightarrow> (t, p))"
proof (induction cs arbitrary: result temp)
  case Nil
  show ?case by simp
next
  case (Cons c cs)
  show ?case
  proof (cases "c = zh_bai \<or> c = zh_shi")
    case True
    then show ?thesis
      using Cons.IH by (auto simp add: Let_def pending_or_1_def)
  next
    case False
    then have ne: "c \<noteq> zh_bai" "c \<noteq> zh_shi" by auto
    show ?thesis
      using ne Cons.IH [of result "dict_get chinese_nums c 0"]
      by (simp add: dict_get_chinese_nums_digit split: option.splits)
  qed
qed

lemma chinese_to_number_long:
  "length s \<noteq> 1 \<Longrightarrow>
   chinese_to_number s = (case scan_chars 0 0 s of (result, temp) \<Rightarrow> result + temp)"
  by (cases s rule: list.exhaust; simp add: chinese_to_number_def split: list.splits)

text \<open>
  C6. The converter maps "one" to 1, "ten" to 10, "four-ten-three" to 43, "one-hundred" to
  100, "one-hundred-two" to 102, "one-hundred-six" to 106 and "one-hundred-six-ten-one"
  to 161.
\<close>

theorem chinese_to_number_examples:
  "chinese_to_number [zh_yi] = 1
   \<and> chinese_to_number [zh_shi] = 10
   \<and> chinese_to_number [zh_si, zh_shi, zh_san] = 43
   \<and> chinese_to_number [zh_yi, zh_bai] = 100
   \<and> chinese_to_number [zh_yi, zh_bai, zh_er] = 102
   \<and> chinese_to_number [zh_yi, zh_bai, zh_liu] = 106
   \<and> chinese_to_number [zh_yi, zh_bai, zh_liu, zh_shi, zh_yi] = 161"
  by (simp add: chinese_to_number_def dict_get_def chinese_nums_def)

text \<open>
  C10. The converter is total on every string (the empty one and strings with characters
  outside the numeral set included): it has an integer result, and the result is not
  negative. No branch of the source can raise: the table is read with \<open>get\<close> and a default.
\<close>

theorem chinese_to_number_total_nonneg:
  "\<exists>n::nat. chinese_to_number s = int n"
proof -
  have "0 \<le> chinese_to_number s"
  proof (cases "length s = 1")
    case True
    then obtain c where "s = [c]" by (cases s) auto
    then show ?thesis
      by (simp add: chinese_to_number_def dict_get_chinese_nums_nonneg)
  next
    case False
    have "0 \<le> fst (scan_chars 0 0 s) \<and> 0 \<le> snd (scan_chars 0 0 s)"
      by (rule scan_chars_nonneg) simp_all
    then show ?thesis
      using chinese_to_number_long [OF False] by (simp add: case_prod_beta)
  qed
  then show ?thesis by (metis nonneg_int_cases)
qed

lemma scan_chars_append:
  "scan_chars result temp (xs @ ys) =
     (case scan_chars result temp xs of (r, t) \<Rightarrow> scan_chars r t ys)"
  by (induction xs arbitrary: result temp) (simp_all add: Let_def)

lemma spec_converter_eq_scan:
  "spec_converter s = (case scan_chars 0 0 s of (result, temp) \<Rightarrow> result + temp)"
  by (simp add: spec_converter_def scan_chars_foldl split: prod.splits)

lemma scan_chars_elision:
  "m = zh_bai \<or> m = zh_shi \<Longrightarrow>
   scan_chars result 0 (m # cs) = scan_chars result 0 (zh_yi # m # cs)"
  by (auto simp add: Let_def dict_get_def chinese_nums_def)

lemma chinese_to_number_elision:
  assumes m: "m = zh_bai \<or> m = zh_shi" and p: "snd (scan_chars 0 0 pre) = 0"
  shows "chinese_to_number (pre @ m # post) = chinese_to_number (pre @ zh_yi # m # post)"
proof -
  obtain r where r: "scan_chars 0 0 pre = (r, 0)"
    using p by (cases "scan_chars 0 0 pre") simp
  have long: "chinese_to_number (pre @ zh_yi # m # post) =
      (case scan_chars 0 0 (pre @ zh_yi # m # post) of (result, temp) \<Rightarrow> result + temp)"
    by (rule chinese_to_number_long) simp
  have scan: "scan_chars 0 0 (pre @ m # post) = scan_chars 0 0 (pre @ zh_yi # m # post)"
    using scan_chars_elision [OF m, of r post] by (simp add: scan_chars_append r)
  show ?thesis
  proof (cases "pre = [] \<and> post = []")
    case True
    then show ?thesis using m
      by (auto simp add: chinese_to_number_def dict_get_def chinese_nums_def)
  next
    case False
    then have "length (pre @ m # post) \<noteq> 1" by (cases pre; cases post) auto
    then show ?thesis using long scan by (simp add: chinese_to_number_long)
  qed
qed

text \<open>
  C3. On every string of two or more characters the converter is the left-to-right fold
  over (pending digit, running total) that the specification describes, with the leftover
  pending digit added at the end. In particular a hundreds or tens marker met while the
  pending digit is zero counts as if the digit one stood before it: putting that digit
  in front of the marker does not change the result.
\<close>

theorem chinese_to_number_is_fold:
  assumes "2 \<le> length s"
  shows "chinese_to_number s = spec_converter s
    \<and> (\<forall>pre m post. s = pre @ m # post \<and> (m = zh_bai \<or> m = zh_shi)
          \<and> snd (scan_chars 0 0 pre) = 0
        \<longrightarrow> chinese_to_number s = chinese_to_number (pre @ zh_yi # m # post))"
proof -
  from assms have "length s \<noteq> 1" by simp
  then have "chinese_to_number s = spec_converter s"
    by (simp add: chinese_to_number_long spec_converter_eq_scan)
  then show ?thesis using chinese_to_number_elision by blast
qed

theorem chinese_to_number_is_fold_witness:
  "2 \<le> length [zh_bai, zh_shi]
   \<and> chinese_to_number [zh_bai, zh_shi] = 110
   \<and> spec_converter [zh_bai, zh_shi] = 110
   \<and> snd (scan_chars 0 0 []) = 0
   \<and> chinese_to_number [zh_yi, zh_bai, zh_shi] = 110"
proof -
  have h: "2 \<le> length [zh_bai, zh_shi]" by simp
  have "chinese_to_number [zh_bai, zh_shi] = spec_converter [zh_bai, zh_shi]"
    using chinese_to_number_is_fold [OF h] by blast
  moreover have "chinese_to_number [zh_bai, zh_shi]
      = chinese_to_number ([] @ zh_yi # zh_bai # [zh_shi])"
    using chinese_to_number_is_fold [OF h] by (metis append_Nil scan_chars.simps(1) snd_conv)
  moreover have "chinese_to_number [zh_bai, zh_shi] = 110"
    by (simp add: chinese_to_number_def)
  ultimately show ?thesis by simp
qed

section \<open>Properties of the parser\<close>

lemma first_some_SomeD:
  "first_some f xs = Some r \<Longrightarrow> \<exists>x \<in> set xs. f x = Some r"
  by (induction xs) (auto split: option.splits)

lemma rx_match_groups:
  "rx_match items pos s gs = Some gs' \<Longrightarrow> length gs' = length gs + captures items"
proof (induction items pos s gs arbitrary: gs' rule: rx_match.induct)
  case (6 q n cap P items pos s gs)
  let ?f = "\<lambda>(a, b). rx_match items (pos + length a) b (if cap then gs @ [a] else gs)"
  let ?xs = "filter (\<lambda>(a, b). n \<le> length a) (case q of Greedy \<Rightarrow> rev (runs P s) | Lazy \<Rightarrow> runs P s)"
  from "6.prems" have "first_some ?f ?xs = Some gs'" by simp
  then obtain x where x: "x \<in> set ?xs" "?f x = Some gs'"
    by (blast dest: first_some_SomeD)
  obtain a b where ab: "x = (a, b)" by (cases x)
  from x ab have "rx_match items (pos + length a) b (if cap then gs @ [a] else gs) = Some gs'"
    by simp
  from "6.IH" [OF this] show ?case by (simp split: if_splits)
qed (auto split: if_splits option.splits)

lemma with_section_groups:
  "re_match pattern_with_section line = Some gs \<Longrightarrow> \<exists>v s. gs = [v, s]"
proof -
  assume "re_match pattern_with_section line = Some gs"
  then have "rx_match pattern_with_section 0 line [] = Some gs"
    by (simp add: re_match_def)
  from rx_match_groups [OF this] have "length gs = 2"
    by (simp add: pattern_with_section_def)
  then show ?thesis
    by (cases gs; simp) (metis Suc_length_conv length_0_conv)
qed

lemma without_section_groups:
  "re_match pattern_without_section line = Some gs \<Longrightarrow> \<exists>v. gs = [v]"
proof -
  assume "re_match pattern_without_section line = Some gs"
  then have "rx_match pattern_without_section 0 line [] = Some gs"
    by (simp add: re_match_def)
  from rx_match_groups [OF this] have "length gs = 1"
    by (simp add: pattern_without_section_def)
  then show ?thesis
    by (cases gs; simp)
qed

lemma parse_line_None:
  "\<not> heading_line line \<Longrightarrow> parse_line line = None"
  by (simp add: heading_line_def parse_line_def)

lemma parse_lines_skip:
  "\<forall>x \<in> set pre. \<not> heading_line x \<Longrightarrow> parse_lines (pre @ rest) = parse_lines rest"
  by (induction pre) (simp_all add: parse_line_None)

lemma parse_line_cases:
  "(case re_match pattern_with_section line of
      Some gs \<Rightarrow> (\<exists>v s. gs = [v, s]
          \<and> parse_line line = Some (chinese_to_number v, Some (chinese_to_number s)))
    | None \<Rightarrow>
       (case re_match pattern_without_section line of
          Some gs \<Rightarrow> (\<exists>v. gs = [v] \<and> parse_line line = Some (chinese_to_number v, None))
        | None \<Rightarrow> parse_line line = None))"
proof (cases "re_match pattern_with_section line")
  case None
  show ?thesis
  proof (cases "re_match pattern_without_section line")
    case None
    with \<open>re_match pattern_with_section line = None\<close> show ?thesis
      by (simp add: parse_line_def)
  next
    case (Some gs)
    from without_section_groups [OF Some] obtain v where "gs = [v]" by blast
    with Some \<open>re_match pattern_with_section line = None\<close> show ?thesis
      by (simp add: parse_line_def)
  qed
next
  case (Some gs)
  from with_section_groups [OF Some] obtain v s where "gs = [v, s]" by blast
  with Some show ?thesis by (simp add: parse_line_def)
qed

lemma parse_line_one_one:
  "parse_line [HASH, 32, zh_juan, zh_yi, zh_zhi, zh_yi] = Some (1, Some 1)"
  by (simp add: parse_line_def re_match_def pattern_with_section_def
      is_space_def is_numeral_def chinese_to_number_def dict_get_def chinese_nums_def)

lemma parse_line_three_contents:
  "parse_line [HASH, 32, zh_juan, zh_san, zh_mu, zh_lu] = Some (3, None)"
  by (simp add: parse_line_def re_match_def pattern_with_section_def pattern_without_section_def
      is_space_def is_numeral_def chinese_to_number_def dict_get_def chinese_nums_def)

text \<open>
  C5. The result of the parser is determined by the first line, from the top, that one of
  the two heading patterns matches: the pattern with a section is tried first on that line
  and gives (volume, section), otherwise the pattern without a section gives (volume,
  absent). When the first heading line is the heading "volume one, section one" the
  result is (1, 1); when it is the heading "volume three, contents" the result is
  (3, absent); when no line is a heading line the result is \<open>None\<close>.
\<close>

theorem parse_chapter_title_first_heading:
  "(split_nl content = pre @ line # post \<and> (\<forall>x \<in> set pre. \<not> heading_line x) \<longrightarrow>
      (case re_match pattern_with_section line of
         Some gs \<Rightarrow> (\<exists>v s. gs = [v, s]
           \<and> parse_chapter_title content = Some (chinese_to_number v, Some (chinese_to_number s)))
       | None \<Rightarrow>
          (case re_match pattern_without_section line of
             Some gs \<Rightarrow> (\<exists>v. gs = [v]
               \<and> parse_chapter_title content = Some (chinese_to_number v, None))
           | None \<Rightarrow> parse_chapter_title content = parse_lines post))
      \<and> (line = [HASH, 32, zh_juan, zh_yi, zh_zhi, zh_yi]
           \<longrightarrow> parse_chapter_title content = Some (1, Some 1))
      \<and> (line = [HASH, 32, zh_juan, zh_san, zh_mu, zh_lu]
           \<longrightarrow> parse_chapter_title content = Some (3, None)))
   \<and> ((\<forall>x \<in> set (split_nl content). \<not> heading_line x) \<longrightarrow> parse_chapter_title content = None)"
proof (intro conjI impI)
  assume "\<forall>x \<in> set (split_nl content). \<not> heading_line x"
  then show "parse_chapter_title content = None"
    using parse_lines_skip [of "split_nl content" "[]"] by (simp add: parse_chapter_title_def)
next
  assume a: "split_nl content = pre @ line # post \<and> (\<forall>x \<in> set pre. \<not> heading_line x)"
  then have eq: "parse_chapter_title content
      = (case parse_line line of Some r \<Rightarrow> Some r | None \<Rightarrow> parse_lines post)"
    by (simp add: parse_chapter_title_def parse_lines_skip)
  show "case re_match pattern_with_section line of
         Some gs \<Rightarrow> (\<exists>v s. gs = [v, s]
           \<and> parse_chapter_title content = Some (chinese_to_number v, Some (chinese_to_number s)))
       | None \<Rightarrow>
          (case re_match pattern_without_section line of
             Some gs \<Rightarrow> (\<exists>v. gs = [v]
               \<and> parse_chapter_title content = Some (chinese_to_number v, None))
           | None \<Rightarrow> parse_chapter_title content = parse_lines post)"
    using parse_line_cases [of line] eq by (auto split: option.splits)
  show "parse_chapter_title content = Some (1, Some 1)"
    if "line = [HASH, 32, zh_juan, zh_yi, zh_zhi, zh_yi]"
    using that eq parse_line_one_one by simp
  show "parse_chapter_title content = Some (3, None)"
    if "line = [HASH, 32, zh_juan, zh_san, zh_mu, zh_lu]"
    using that eq parse_line_three_contents by simp
qed

lemma not_heading_x: "\<not> heading_line [120]"
  by (simp add: heading_line_def re_match_def pattern_with_section_def pattern_without_section_def)

theorem parse_chapter_title_first_heading_witness:
  "split_nl [120, NL, HASH, 32, zh_juan, zh_yi, zh_zhi, zh_yi, NL, HASH, 32, zh_juan, zh_san, zh_mu, zh_lu]
     = [120] # [HASH, 32, zh_juan, zh_yi, zh_zhi, zh_yi] # [[HASH, 32, zh_juan, zh_san, zh_mu, zh_lu]]
   \<and> \<not> heading_line [120]
   \<and> parse_chapter_title
        [120, NL, HASH, 32, zh_juan, zh_yi, zh_zhi, zh_yi, NL, HASH, 32, zh_juan, zh_san, zh_mu, zh_lu]
      = Some (1, Some 1)
   \<and> split_nl [120] = [[120]]
   \<and> parse_chapter_title [120] = None"
proof -
  let ?c = "[120, NL, HASH, 32, zh_juan, zh_yi, zh_zhi, zh_yi, NL, HASH, 32, zh_juan, zh_san, zh_mu, zh_lu]"
  have s: "split_nl ?c = [[120]] @ [HASH, 32, zh_juan, zh_yi, zh_zhi, zh_yi] # [[HASH, 32, zh_juan, zh_san, zh_mu, zh_lu]]"
    by simp
  have n: "\<forall>x \<in> set [[120::nat]]. \<not> heading_line x" using not_heading_x by simp
  have "parse_chapter_title ?c = Some (1, Some 1)"
    using parse_chapter_title_first_heading
      [of ?c "[[120]]" "[HASH, 32, zh_juan, zh_yi, zh_zhi, zh_yi]" "[[HASH, 32, zh_juan, zh_san, zh_mu, zh_lu]]"] s n
    by blast
  moreover have "parse_chapter_title [120] = None"
    using parse_chapter_title_first_heading [of "[120]"] not_heading_x by simp
  ultimately show ?thesis using s not_heading_x by simp
qed

section \<open>Properties of the splitter\<close>

lemma ustr_marker [simp]: "ustr ''---'' = [45, 45, 45]"
  by (simp add: ustr_def)

lemma delimited_eq:
  "delimited m b = [45, 45, 45, NL] @ m @ [NL, 45, 45, 45, NL] @ b"
  by (simp add: delimited_def)

lemma split_nl_nonempty [simp]: "split_nl s \<noteq> []"
  by (induction s) (auto split: list.splits)

lemma tl_split_nl_Cons:
  "tl (split_nl (c # cs)) = (if c = NL then split_nl cs else tl (split_nl cs))"
  by (cases "split_nl cs") auto

lemma first_line_marker:
  assumes "take 4 (cs @ NL # rest) = [45, 45, 45, NL]"
  shows "hd (split_nl cs) = [45, 45, 45]"
proof (cases cs)
  case Nil
  with assms show ?thesis by simp
next
  case c1: (Cons a1 r1)
  show ?thesis
  proof (cases r1)
    case Nil
    with assms c1 show ?thesis by simp
  next
    case c2: (Cons a2 r2)
    show ?thesis
    proof (cases r2)
      case Nil
      with assms c1 c2 show ?thesis by simp
    next
      case c3: (Cons a3 r3)
      show ?thesis
      proof (cases r3)
        case Nil
        with assms c1 c2 c3 show ?thesis by simp
      next
        case c4: (Cons a4 r4)
        with assms c1 c2 c3 show ?thesis by simp
      qed
    qed
  qed
qed


lemma runs_any_last: "\<exists>l. runs any_char s = l @ [(s, [])]"
proof (induction s)
  case Nil
  show ?case by simp
next
  case (Cons c cs)
  then obtain l where "runs any_char cs = l @ [(cs, [])]" by blast
  then have "runs any_char (c # cs) = (([], c # cs) # map (\<lambda>(a, b). (c # a, b)) l) @ [(c # cs, [])]"
    by (simp add: any_char_def)
  then show ?case by blast
qed

lemma Suc5: "Suc (Suc (Suc (Suc (Suc 0)))) = 5" and Suc4: "Suc (Suc (Suc (Suc 0))) = 4"
  by simp_all

lemma first_some_map: "first_some f (map h xs) = first_some (\<lambda>x. f (h x)) xs"
  by (induction xs) (auto split: option.splits)

lemma greedy_rest:
  "rx_match [Rep Greedy 0 True any_char, Dollar] pos r gs = Some (gs @ [r])"
proof -
  obtain l where "runs any_char r = l @ [(r, [])]" using runs_any_last by blast
  then show ?thesis by simp
qed

lemma frontmatter_match:
  "re_match frontmatter_pattern text =
     (if take 4 text = [45, 45, 45, NL]
      then first_some (close_at []) (runs any_char (drop 4 text)) else None)"
proof -
  have "(\<lambda>(a, b). rx_match [Chars [NL, 45, 45, 45, NL], Rep Greedy 0 True any_char, Dollar]
           (4 + length a) b [a]) = close_at []"
    by (rule ext) (simp add: close_at_def greedy_rest Suc5 split: prod.splits del: rx_match.simps(6))
  then show ?thesis
    by (simp add: re_match_def frontmatter_pattern_def Suc4 any_char_def del: rx_match.simps(6))
       (simp add: Suc5)
qed

lemma close_at_Cons: "close_at pre (case x of (a, b) \<Rightarrow> (c # a, b)) = close_at (pre @ [c]) x"
  by (simp add: close_at_def split: prod.splits)


lemma lazy_search_first:
  "ustr ''---'' \<notin> set (tl (split_nl m)) \<Longrightarrow>
   first_some (close_at pre) (runs any_char (m @ [NL, 45, 45, 45, NL] @ b)) = Some [pre @ m, b]"
proof (induction m arbitrary: pre)
  case Nil
  show ?case by (simp add: close_at_def)
next
  case (Cons c cs)
  have no: "take 5 (c # cs @ [NL, 45, 45, 45, NL] @ b) \<noteq> [NL, 45, 45, 45, NL]"
  proof
    assume h: "take 5 (c # cs @ [NL, 45, 45, 45, NL] @ b) = [NL, 45, 45, 45, NL]"
    then have c: "c = NL" and "take 4 (cs @ NL # ([45, 45, 45, NL] @ b)) = [45, 45, 45, NL]"
      by (simp_all add: take_Cons')
    then have "hd (split_nl cs) = [45, 45, 45]" by (rule_tac first_line_marker)
    then have "[45, 45, 45] \<in> set (split_nl cs)"
      by (metis hd_in_set split_nl_nonempty)
    with Cons.prems c show False by (simp add: tl_split_nl_Cons)
  qed
  have "set (tl (split_nl cs)) \<subseteq> set (tl (split_nl (c # cs)))"
    unfolding tl_split_nl_Cons by (auto dest: list.set_sel(2) [rotated])
  with Cons.prems have sub: "ustr ''---'' \<notin> set (tl (split_nl cs))" by blast
  from no have h0: "close_at pre ([], c # cs @ [NL, 45, 45, 45, NL] @ b) = None"
    by (simp add: close_at_def)
  show ?case
    using h0 Cons.IH [OF sub, of "pre @ [c]"]
    by (simp add: any_char_def first_some_map close_at_Cons)
qed


lemma split_frontmatter_delimited:
  assumes "ustr ''---'' \<notin> set (tl (split_nl m))"
  shows "split_frontmatter (delimited m b) = (Some m, b)"
proof -
  have "re_match frontmatter_pattern (delimited m b) = Some [m, b]"
    using lazy_search_first [OF assms, of "[]" b] by (simp add: frontmatter_match delimited_eq)
  then show ?thesis by (simp add: split_frontmatter_def)
qed


lemma split_frontmatter_absent:
  "split_frontmatter text = (None, body) \<Longrightarrow> body = text"
  by (auto simp add: split_frontmatter_def split: option.splits list.splits)






section \<open>Properties of the merged text\<close>

lemma ustr_None [simp]: "ustr ''None'' = [78, 111, 110, 101]"
  by (simp add: ustr_def)

lemma merged_content_absent:
  assumes "fst (split_frontmatter catalog_text) = None"
    and "fst (split_frontmatter content_text) = None"
  shows "merged_content (split_frontmatter catalog_text) (split_frontmatter content_text)
     = delimited (ustr ''None'') (catalog_text @ [NL] @ content_text)"
proof -
  from assms(1) have c: "split_frontmatter catalog_text = (None, catalog_text)"
    by (cases "split_frontmatter catalog_text") (auto dest: split_frontmatter_absent)
  from assms(2) have d: "split_frontmatter content_text = (None, content_text)"
    by (cases "split_frontmatter content_text") (auto dest: split_frontmatter_absent)
  show ?thesis
    by (simp add: c d merged_content_def merged_frontmatter_def truthy_def py_str_def)
qed

text \<open>
  C9. When neither the catalog nor the content has a metadata block, the merged text still
  begins with a delimited metadata block, and what that block holds is the four
  characters of the word None; the splitter reads it back as such.
\<close>

theorem merged_content_none_block:
  assumes "fst (split_frontmatter catalog_text) = None"
    and "fst (split_frontmatter content_text) = None"
  shows "merged_content (split_frontmatter catalog_text) (split_frontmatter content_text)
       = ustr ''---'' @ [NL] @ ustr ''None'' @ [NL] @ ustr ''---'' @ [NL]
           @ catalog_text @ [NL] @ content_text
    \<and> split_frontmatter
         (merged_content (split_frontmatter catalog_text) (split_frontmatter content_text))
       = (Some (ustr ''None''), catalog_text @ [NL] @ content_text)
    \<and> length (ustr ''None'') = 4"
proof -
  have "ustr ''---'' \<notin> set (tl (split_nl (ustr ''None'')))" by simp
  then show ?thesis
    using merged_content_absent [OF assms]
    by (simp add: split_frontmatter_delimited) (simp add: delimited_def)
qed

theorem merged_content_none_block_witness:
  "fst (split_frontmatter [65]) = None \<and> fst (split_frontmatter [66]) = None
   \<and> merged_content (split_frontmatter [65]) (split_frontmatter [66])
       = [45, 45, 45, NL, 78, 111, 110, 101, NL, 45, 45, 45, NL, 65, NL, 66]"
proof -
  have a: "fst (split_frontmatter [65]) = None" and b: "fst (split_frontmatter [66]) = None"
    by (simp_all add: split_frontmatter_def frontmatter_match)
  show ?thesis
    using merged_content_none_block [OF a b] a b by simp
qed

lemma merged_frontmatter_catalog:
  "catalog_fm = Some fm \<Longrightarrow> fm \<noteq> [] \<Longrightarrow> merged_frontmatter catalog_fm content_fm = Some fm"
  by (simp add: merged_frontmatter_def truthy_def)

text \<open>
  C2. What the merger does when the catalog has an empty metadata block and the content a
  block holding the character k: the catalog's block is found (and is empty), yet the
  merged text carries the content's block.
\<close>

theorem merged_content_empty_catalog_block:
  "split_frontmatter [45, 45, 45, NL, NL, 45, 45, 45, NL, 65] = (Some [], [65])
   \<and> split_frontmatter [45, 45, 45, NL, 107, NL, 45, 45, 45, NL, 66] = (Some [107], [66])
   \<and> merged_content (split_frontmatter [45, 45, 45, NL, NL, 45, 45, 45, NL, 65])
        (split_frontmatter [45, 45, 45, NL, 107, NL, 45, 45, 45, NL, 66])
       = [45, 45, 45, NL, 107, NL, 45, 45, 45, NL, 65, NL, 66]
   \<and> split_frontmatter [45, 45, 45, NL, 107, NL, 45, 45, 45, NL, 65, NL, 66]
       = (Some [107], [65, NL, 66])"
  by (simp add: split_frontmatter_def frontmatter_match close_at_def any_char_def
      merged_content_def merged_frontmatter_def truthy_def py_str_def delimited_def)

section \<open>Properties of the merger loop\<close>











section \<open>Properties of the renamer\<close>

lemma py_print_cases:
  "py_print out ev st = Inl x \<Longrightarrow> snd x = st"
  "py_print out ev st = Inr st1 \<Longrightarrow> st1 = st\<lparr>log := log st @ [ev]\<rparr>"
  by (auto simp add: py_print_def split: option.splits)

lemma print_all_keeps:
  "print_all out evs st = Inl (e, st1) \<Longrightarrow>
     dir st1 = dir st \<and> renamed_count st1 = renamed_count st
     \<and> skipped_count st1 = skipped_count st \<and> failed_count st1 = failed_count st"
  "print_all out evs st = Inr st2 \<Longrightarrow>
     dir st2 = dir st \<and> renamed_count st2 = renamed_count st
     \<and> skipped_count st2 = skipped_count st \<and> failed_count st2 = failed_count st
     \<and> log st2 = log st @ evs"
proof (induction evs arbitrary: st)
  case Nil
  { case 1 then show ?case by simp }
  { case 2 then show ?case by simp }
next
  case (Cons ev evs)
  { case 1
    show ?case
    proof (cases "py_print out ev st")
      case (Inl x)
      with 1 have "x = (e, st1)" by simp
      with py_print_cases(1) [OF Inl] show ?thesis by simp
    next
      case (Inr s)
      with 1 have "print_all out evs s = Inl (e, st1)" by simp
      from Cons.IH(1) [OF this] py_print_cases(2) [OF Inr] show ?thesis by simp
    qed }
  { case 2
    show ?case
    proof (cases "py_print out ev st")
      case (Inl x)
      with 2 show ?thesis by simp
    next
      case (Inr s)
      with 2 have "print_all out evs s = Inr st2" by simp
      from Cons.IH(2) [OF this] py_print_cases(2) [OF Inr] show ?thesis by simp
    qed }
qed

text \<open>
  What the handler does with an exception of the body: when its own \<open>print\<close> succeeds the
  file is counted as failed and the loop goes on; when that \<open>print\<close> raises, the exception
  leaves the loop with the file not counted and the files after it not processed.
\<close>

lemma process_loop_caught:
  assumes "process_file dry_run denied out st name = Inl (e, st1)"
    and "out (render (Error name e)) = None"
  shows "process_loop dry_run denied out st (name # names)
    = process_loop dry_run denied out
        (st1\<lparr>log := log st1 @ [Error name e], failed_count := failed_count st1 + 1\<rparr>) names"
  using assms by (simp add: py_print_def)

lemma process_loop_handler_raises:
  assumes "process_file dry_run denied out st name = Inl (e, st1)"
    and "out (render (Error name e)) = Some e2"
  shows "process_loop dry_run denied out st (name # names) = Inl (e2, st1)"
  using assms by (simp add: py_print_def)

section \<open>The renamer on files at their canonical names\<close>

lemma dec_nonempty: "dec n \<noteq> []"
  by (subst dec.simps) simp

lemma dec_digits: "c \<in> set (dec n) \<Longrightarrow> 48 \<le> c \<and> c \<le> 57"
proof (induction n rule: dec.induct)
  case (1 n)
  show ?case
  proof (cases "n < 10")
    case True
    with "1.prems" show ?thesis by (simp add: dec.simps [of n])
  next
    case False
    with "1.prems" have "c \<in> set (dec (n div 10)) \<or> c = 48 + n mod 10"
      by (auto simp add: dec.simps [of n])
    with "1.IH" [OF False] show ?thesis by auto
  qed
qed

lemma format_d_chars:
  "format_d w v \<noteq> [] \<and> (\<forall>c \<in> set (format_d w v). c = 45 \<or> (48 \<le> c \<and> c \<le> 57))"
  by (auto simp add: format_d_def zfill_def dec_nonempty dest: dec_digits)

lemma format_chapter_number_hd:
  "format_chapter_number volume sec @ rest \<noteq> []
   \<and> hd (format_chapter_number volume sec @ rest) \<noteq> 75"
proof -
  obtain t where "format_chapter_number volume sec = format_d 3 volume @ t"
    by (cases sec) (simp_all add: format_chapter_number_def)
  moreover have "format_d 3 volume \<noteq> []" and "hd (format_d 3 volume) \<in> set (format_d 3 volume)"
    using format_d_chars [of 3 volume] by simp_all
  moreover have "hd (format_d 3 volume) \<noteq> 75"
    using format_d_chars [of 3 volume] calculation(3) by fastforce
  ultimately show ?thesis by simp
qed

lemma glob_match_hd: "glob_match name \<Longrightarrow> name \<noteq> [] \<and> hd name = 75"
  by (cases name) (auto simp add: glob_match_def ustr_def)

lemma target_not_selected:
  "glob_match name \<Longrightarrow> name \<noteq> format_chapter_number volume sec @ ustr ''.md''"
  using format_chapter_number_hd [of volume sec "ustr ''.md''"] glob_match_hd [of name]
  by auto

lemma canonical_not_selected: "canonical_file f \<Longrightarrow> \<not> glob_match (fst f)"
  by (auto simp add: canonical_file_def dest: target_not_selected
      split: node.splits option.splits prod.splits)

text \<open>
  The branch that reports a name as correct already cannot be taken for a selected file,
  and a directory of files at their canonical names has no selected file at all.
\<close>

lemma process_file_never_already_correct:
  "glob_match name \<Longrightarrow> process_file dry_run denied out st name = Inr st' \<Longrightarrow>
   log st' \<noteq> log st @ [AlreadyCorrect name]"
  by (auto simp add: process_file_def Let_def py_print_def dest: target_not_selected
      split: sum.splits option.splits prod.splits if_splits)

lemma canonical_dir_no_files:
  assumes "\<forall>f \<in> set d. canonical_file f"
  shows "md_files d = []"
proof -
  from assms have "filter glob_match (map fst d) = []"
    by (auto simp add: filter_empty_conv dest: canonical_not_selected)
  then show ?thesis by (simp add: md_files_def)
qed

lemma canonical_dir_no_rename:
  assumes "\<forall>f \<in> set d. canonical_file f"
  shows "case process_md_files dry_run denied out md_dir (Some d) of
           Inl (e, st) \<Rightarrow> dir st = d \<and> renamed_count st = 0
         | Inr st \<Rightarrow> dir st = d \<and> renamed_count st = 0 \<and> skipped_count st = 0"
proof -
  let ?st0 = "\<lparr>dir = d, renamed_count = 0, failed_count = 0, skipped_count = 0, log = []\<rparr>"
  have files: "md_files d = []" using assms by (rule canonical_dir_no_files)
  show ?thesis
  proof (cases "print_all out [Found 0, Blank] ?st0")
    case (Inl x)
    obtain e st where x: "x = (e, st)" by (cases x)
    from print_all_keeps(1) [OF Inl [unfolded x]] Inl x files show ?thesis
      by (simp add: process_md_files_def)
  next
    case (Inr st1)
    note k1 = print_all_keeps(2) [OF Inr]
    show ?thesis
    proof (cases "print_all out (summary dry_run st1) st1")
      case (Inl x)
      obtain e st where x: "x = (e, st)" by (cases x)
      from print_all_keeps(1) [OF Inl [unfolded x]] k1 Inl Inr x files show ?thesis
        by (simp add: process_md_files_def)
    next
      case k: (Inr st2)
      from print_all_keeps(2) [OF k] k1 k Inr files show ?thesis
        by (simp add: process_md_files_def)
    qed
  qed
qed


lemma parse_section_heading:
  "parse_chapter_title [HASH, 32, zh_juan, zh_yi, zh_zhi, zh_yi] = Some (1, Some 1)"
  by (simp add: parse_chapter_title_def parse_line_one_one)

lemma parse_contents_heading:
  "parse_chapter_title [HASH, 32, zh_juan, zh_san, zh_mu, zh_lu] = Some (3, None)"
  by (simp add: parse_chapter_title_def parse_line_three_contents)

lemma format_one_one: "format_chapter_number 1 (Some 1) = ustr ''001_01''"
  by (simp add: format_chapter_number_def format_d_def zfill_def dec.simps numeral_2_eq_2 ustr_def)

lemma format_three: "format_chapter_number 3 None = [48, 48, 51]"
  by (simp add: format_chapter_number_def format_d_def zfill_def dec.simps numeral_2_eq_2)

lemma canonical_example:
  "canonical_file (ustr ''001_01.md'', Text [HASH, 32, zh_juan, zh_yi, zh_zhi, zh_yi])"
  by (simp add: canonical_file_def parse_section_heading format_one_one) (simp add: ustr_def)

lemmas stdout_simps =
  py_print_def utf8_stdout_def surrogate_def hex4_def hex_digit_def ustr_def dec.simps
  chapter_display_def py_int_str_def Let_def

lemma first_run_example:
  "process_md_files False never_denied utf8_stdout (ustr ''md'')
      (Some [(ustr ''KR3k0059_001.md'', Text [HASH, 32, zh_juan, zh_yi, zh_zhi, zh_yi])])
     = Inr \<lparr>dir = [(ustr ''001_01.md'', Text [HASH, 32, zh_juan, zh_yi, zh_zhi, zh_yi])],
            renamed_count = 1, failed_count = 0, skipped_count = 0,
            log = [Found 1, Blank,
                   Renamed (ustr ''KR3k0059_001.md'') (ustr ''001_01'') 1 (Some 1),
                   Blank, Rule, Done, CountRenamed 1, CountSkipped 0, CountFailed 0]\<rparr>"
proof -
  have files: "md_files [(ustr ''KR3k0059_001.md'', Text [HASH, 32, zh_juan, zh_yi, zh_zhi, zh_yi])]
      = [ustr ''KR3k0059_001.md'']"
    by (simp add: md_files_def glob_match_def ustr_def)
  show ?thesis
    using files
    by (simp add: process_md_files_def process_file_def read_text_def read_node_def
        parse_section_heading format_one_one path_exists_def path_rename_def never_denied_def
        summary_def stdout_simps)
qed

text \<open>
  C1. A first run renames the one file of a directory to its canonical name. The second
  run, over the directory the first one left, renames nothing; but the file, which is at
  its canonical name, is not among the selected files (none is found), so the run neither
  counts it as skipped nor reports it as having the correct name already.
\<close>

theorem canonical_file_not_reported:
  "process_md_files False never_denied utf8_stdout (ustr ''md'')
      (Some [(ustr ''KR3k0059_001.md'', Text [HASH, 32, zh_juan, zh_yi, zh_zhi, zh_yi])])
     = Inr \<lparr>dir = [(ustr ''001_01.md'', Text [HASH, 32, zh_juan, zh_yi, zh_zhi, zh_yi])],
            renamed_count = 1, failed_count = 0, skipped_count = 0,
            log = [Found 1, Blank,
                   Renamed (ustr ''KR3k0059_001.md'') (ustr ''001_01'') 1 (Some 1),
                   Blank, Rule, Done, CountRenamed 1, CountSkipped 0, CountFailed 0]\<rparr>
   \<and> canonical_file (ustr ''001_01.md'', Text [HASH, 32, zh_juan, zh_yi, zh_zhi, zh_yi])
   \<and> process_md_files False never_denied utf8_stdout (ustr ''md'')
        (Some [(ustr ''001_01.md'', Text [HASH, 32, zh_juan, zh_yi, zh_zhi, zh_yi])])
     = Inr \<lparr>dir = [(ustr ''001_01.md'', Text [HASH, 32, zh_juan, zh_yi, zh_zhi, zh_yi])],
            renamed_count = 0, failed_count = 0, skipped_count = 0,
            log = [Found 0, Blank, Blank, Rule, Done,
                   CountRenamed 0, CountSkipped 0, CountFailed 0]\<rparr>
   \<and> AlreadyCorrect (ustr ''001_01.md'')
       \<notin> set [Found 0, Blank, Blank, Rule, Done, CountRenamed 0, CountSkipped 0, CountFailed 0]"
proof -
  have "md_files [(ustr ''001_01.md'', Text [HASH, 32, zh_juan, zh_yi, zh_zhi, zh_yi])] = []"
    by (simp add: md_files_def glob_match_def ustr_def)
  then have "process_md_files False never_denied utf8_stdout (ustr ''md'')
        (Some [(ustr ''001_01.md'', Text [HASH, 32, zh_juan, zh_yi, zh_zhi, zh_yi])])
     = Inr \<lparr>dir = [(ustr ''001_01.md'', Text [HASH, 32, zh_juan, zh_yi, zh_zhi, zh_yi])],
            renamed_count = 0, failed_count = 0, skipped_count = 0,
            log = [Found 0, Blank, Blank, Rule, Done,
                   CountRenamed 0, CountSkipped 0, CountFailed 0]\<rparr>"
    by (simp add: process_md_files_def summary_def stdout_simps)
  then show ?thesis
    using canonical_example first_run_example by simp
qed

section \<open>The renamer when reporting a file raises\<close>

text \<open>
  C8. A directory with two selected files, the first with a name that holds a byte which
  is not UTF-8 (a surrogate code point in the name) and no heading, the second an ordinary
  file with a heading, on a strict UTF-8 standard output. Reporting the first file raises
  in the body of the loop, the handler raises again when it prints the same name, and
  that exception leaves the run: the first file is not counted as failed, the second
  file is not processed, and no summary is printed.
\<close>

theorem process_md_files_handler_raises:
  "process_file False never_denied utf8_stdout
      \<lparr>dir = [(ustr ''KR3k0059_0'' @ [0xDCFF] @ ustr ''.md'', Text [120]),
               (ustr ''KR3k0059_1.md'', Text [HASH, 32, zh_juan, zh_san, zh_mu, zh_lu])],
        renamed_count = 0, failed_count = 0, skipped_count = 0, log = [Found 2, Blank]\<rparr>
      (ustr ''KR3k0059_0'' @ [0xDCFF] @ ustr ''.md'')
     = Inl (UnicodeEncodeError
              ([39] @ ustr ''utf-8'' @ [39] @ ustr '' codec can'' @ [39]
                 @ ustr ''t encode character '' @ [39, 92] @ ustr ''udcff'' @ [39]
                 @ ustr '' in position 15: surrogates not allowed''),
            \<lparr>dir = [(ustr ''KR3k0059_0'' @ [0xDCFF] @ ustr ''.md'', Text [120]),
                     (ustr ''KR3k0059_1.md'', Text [HASH, 32, zh_juan, zh_san, zh_mu, zh_lu])],
              renamed_count = 0, failed_count = 0, skipped_count = 0, log = [Found 2, Blank]\<rparr>)
   \<and> process_md_files False never_denied utf8_stdout (ustr ''md'')
        (Some [(ustr ''KR3k0059_0'' @ [0xDCFF] @ ustr ''.md'', Text [120]),
               (ustr ''KR3k0059_1.md'', Text [HASH, 32, zh_juan, zh_san, zh_mu, zh_lu])])
     = Inl (UnicodeEncodeError
              ([39] @ ustr ''utf-8'' @ [39] @ ustr '' codec can'' @ [39]
                 @ ustr ''t encode character '' @ [39, 92] @ ustr ''udcff'' @ [39]
                 @ ustr '' in position 15: surrogates not allowed''),
            \<lparr>dir = [(ustr ''KR3k0059_0'' @ [0xDCFF] @ ustr ''.md'', Text [120]),
                     (ustr ''KR3k0059_1.md'', Text [HASH, 32, zh_juan, zh_san, zh_mu, zh_lu])],
              renamed_count = 0, failed_count = 0, skipped_count = 0, log = [Found 2, Blank]\<rparr>)"
proof -
  let ?bad = "ustr ''KR3k0059_0'' @ [0xDCFF] @ ustr ''.md''"
  let ?d = "[(?bad, Text [120]),
             (ustr ''KR3k0059_1.md'', Text [HASH, 32, zh_juan, zh_san, zh_mu, zh_lu])]"
  have files: "md_files ?d = [?bad, ustr ''KR3k0059_1.md'']"
    by (simp add: md_files_def glob_match_def ustr_def)
  have nohead: "parse_chapter_title [120] = None"
    by (simp add: parse_chapter_title_def parse_line_None not_heading_x)
  have body: "process_file False never_denied utf8_stdout
      \<lparr>dir = ?d, renamed_count = 0, failed_count = 0, skipped_count = 0, log = [Found 2, Blank]\<rparr>
      ?bad
     = Inl (UnicodeEncodeError
              ([39] @ ustr ''utf-8'' @ [39] @ ustr '' codec can'' @ [39]
                 @ ustr ''t encode character '' @ [39, 92] @ ustr ''udcff'' @ [39]
                 @ ustr '' in position 15: surrogates not allowed''),
            \<lparr>dir = ?d, renamed_count = 0, failed_count = 0, skipped_count = 0,
              log = [Found 2, Blank]\<rparr>)"
    by (simp add: process_file_def read_text_def read_node_def nohead stdout_simps)
  have run: "process_md_files False never_denied utf8_stdout (ustr ''md'') (Some ?d)
     = Inl (UnicodeEncodeError
              ([39] @ ustr ''utf-8'' @ [39] @ ustr '' codec can'' @ [39]
                 @ ustr ''t encode character '' @ [39, 92] @ ustr ''udcff'' @ [39]
                 @ ustr '' in position 15: surrogates not allowed''),
            \<lparr>dir = ?d, renamed_count = 0, failed_count = 0, skipped_count = 0,
              log = [Found 2, Blank]\<rparr>)"
    using files
    by (simp add: process_md_files_def process_file_def read_text_def read_node_def nohead
        stdout_simps)
  from body run show ?thesis by simp
qed

end
